theory Spec2Isabelle
  imports Main "HOL-Library.AList" "HOL-Library.Multiset" "HOL-Library.Sublist"
begin

section \<open>JavaScript values\<close>

text \<open>
  The configuration code of \<^verbatim>\<open>import-sorter-extension.ts\<close> works on the values that
  \<^verbatim>\<open>JSON.parse\<close> and the editor's settings lookup deliver: \<^verbatim>\<open>null\<close>, booleans, numbers,
  strings, arrays and plain objects. A JavaScript array is an object whose own keys are
  the decimal indices, and lodash's \<^verbatim>\<open>merge\<close> walks arrays and plain objects with the same
  loop over their keys, so both are one constructor \<open>JObj\<close> with a tag: the array
  \<^verbatim>\<open>[x, y]\<close> is \<open>JObj Array [(''0'', x), (''1'', y)]\<close>. The properties are an
  association list in own-key order; a key occurs once. Numbers are only carried and
  tested for zero, never computed with. The property names \<^verbatim>\<open>__proto__\<close> and
  \<^verbatim>\<open>length\<close>, which JavaScript and lodash treat specially, are not given a special
  meaning here.
\<close>

datatype kind = Plain | Array

datatype json =
    JNull
  | JBool bool
  | JNum int
  | JStr string
  | JObj kind "(string \<times> json) list"

type_synonym props = "(string \<times> json) list"

datatype js_error = JsError (message: string)

text \<open>The decimal rendering of a non-negative integer (\<^verbatim>\<open>String(n)\<close>, \<^verbatim>\<open>`${n}`\<close>).\<close>

definition digit_char :: "nat \<Rightarrow> char" where
  "digit_char d = ''0123456789'' ! d"

fun string_of_nat :: "nat \<Rightarrow> string" where
  "string_of_nat n =
     (if n < 10 then [digit_char n]
      else string_of_nat (n div 10) @ [digit_char (n mod 10)])"

declare string_of_nat.simps [simp del]

text \<open>The own enumerable properties of an array with the given elements.\<close>

definition indexed :: "json list \<Rightarrow> props" where
  "indexed xs = zip (map string_of_nat [0..<length xs]) xs"

definition jarray :: "json list \<Rightarrow> json" where
  "jarray xs = JObj Array (indexed xs)"

text \<open>JavaScript truthiness of a property read (\<open>None\<close> is \<^verbatim>\<open>undefined\<close>).\<close>

fun truthy :: "json option \<Rightarrow> bool" where
  "truthy None = False"
| "truthy (Some JNull) = False"
| "truthy (Some (JBool b)) = b"
| "truthy (Some (JNum n)) = (n \<noteq> 0)"
| "truthy (Some (JStr s)) = (s \<noteq> [])"
| "truthy (Some (JObj k ps)) = True"

text \<open>\<^verbatim>\<open>value || {}\<close>\<close>

definition or_empty_object :: "json option \<Rightarrow> json" where
  "or_empty_object v = (case v of Some x \<Rightarrow> (if truthy v then x else JObj Plain []) | None \<Rightarrow> JObj Plain [])"

text \<open>
  The properties a \<^verbatim>\<open>for ... in\<close> loop (lodash \<^verbatim>\<open>keysIn\<close>) or \<^verbatim>\<open>Object.keys\<close> finds on a
  value: the entries of an object or array, the characters of a string under their
  indices, nothing on a number or a boolean.
\<close>

fun enumerable_props :: "json \<Rightarrow> props" where
  "enumerable_props (JObj k ps) = ps"
| "enumerable_props (JStr s) = indexed (map (\<lambda>c. JStr [c]) s)"
| "enumerable_props _ = []"

text \<open>\<^verbatim>\<open>Object.keys(v)\<close> with \<^verbatim>\<open>v[key]\<close> beside each key; it throws on \<^verbatim>\<open>null\<close>.\<close>

definition object_entries :: "json \<Rightarrow> js_error + props" where
  "object_entries v =
     (case v of
        JNull \<Rightarrow> Inl (JsError ''Cannot convert undefined or null to object'')
      | _ \<Rightarrow> Inr (enumerable_props v))"

section \<open>lodash: cloneDeep and merge\<close>

text \<open>
  \<^verbatim>\<open>merge(object, source)\<close> visits each property of the source in turn. A source value
  that is an array or a plain object is merged recursively into the destination's value
  under that key when that value can take it (an array for an array; any object for a
  plain object), and into a fresh empty array or object otherwise; any other source
  value is assigned. \<open>merge_value\<close> is the value left under the key, \<open>merge_props\<close>
  the loop with its assignment \<^verbatim>\<open>object[key] = newValue\<close>.
\<close>

definition array_base :: "json option \<Rightarrow> props" where
  "array_base objValue = (case objValue of Some (JObj Array dst) \<Rightarrow> dst | _ \<Rightarrow> [])"

definition plain_base :: "json option \<Rightarrow> kind \<times> props" where
  "plain_base objValue = (case objValue of Some (JObj k dst) \<Rightarrow> (k, dst) | _ \<Rightarrow> (Plain, []))"

fun merge_props :: "props \<Rightarrow> props \<Rightarrow> props"
and merge_value :: "json option \<Rightarrow> json \<Rightarrow> json" where
  "merge_props object [] = object"
| "merge_props object ((key, srcValue) # source) =
     merge_props (AList.update key (merge_value (map_of object key) srcValue) object) source"
| "merge_value objValue (JObj Array src) =
     JObj Array (merge_props (array_base objValue) src)"
| "merge_value objValue (JObj Plain src) =
     JObj (fst (plain_base objValue)) (merge_props (snd (plain_base objValue)) src)"
| "merge_value objValue JNull = JNull"
| "merge_value objValue (JBool b) = JBool b"
| "merge_value objValue (JNum n) = JNum n"
| "merge_value objValue (JStr s) = JStr s"

text \<open>\<^verbatim>\<open>merge(object, source)\<close> on the object held in a variable.\<close>

definition lodash_merge :: "props \<Rightarrow> json \<Rightarrow> props" where
  "lodash_merge object source = merge_props object (enumerable_props source)"

text \<open>
  Values are immutable here, so a deep copy is the value itself; what the copy protects
  is the subject of the store model further down.
\<close>

definition cloneDeep :: "props \<Rightarrow> props" where
  "cloneDeep v = v"

section \<open>Un-flattening the configuration file\<close>

text \<open>\<^verbatim>\<open>key.split(".")\<close>\<close>

fun split_dot :: "string \<Rightarrow> string list" where
  "split_dot [] = [[]]"
| "split_dot (c # cs) =
     (if c = CHR ''.'' then [] # split_dot cs
      else (case split_dot cs of
              [] \<Rightarrow> [[c]]
            | w # ws \<Rightarrow> (c # w) # ws))"

text \<open>
  The \<^verbatim>\<open>keys.reduce\<close> of the source, which hangs the value under the last segment and a
  fresh object under each segment before it; no segment leaves the empty object.
\<close>

fun nest :: "string list \<Rightarrow> json \<Rightarrow> props" where
  "nest [] v = []"
| "nest [currentKey] v = [(currentKey, v)]"
| "nest (currentKey # ks) v = [(currentKey, JObj Plain (nest ks v))]"

definition path_of_key :: "string \<Rightarrow> string list" where
  "path_of_key key = filter (\<lambda>str. str \<noteq> ''importSorter'') (split_dot key)"

definition unflatten_key :: "string \<Rightarrow> json \<Rightarrow> props" where
  "unflatten_key key v = nest (path_of_key key) v"

definition fileConfigMerged :: "props \<Rightarrow> props" where
  "fileConfigMerged entries =
     foldl (\<lambda>sum currentObj. merge_props sum currentObj) []
       (map (\<lambda>(key, v). unflatten_key key v) entries)"

section \<open>Editor effects\<close>

record position =
  line :: int
  character :: int

record text_range =
  range_start :: position
  range_end :: position

record text_edit =
  edit_range :: text_range
  newText :: string

definition TextEdit_del :: "text_range \<Rightarrow> text_edit" where
  "TextEdit_del r = \<lparr>edit_range = r, newText = ''''\<rparr>"

definition TextEdit_insert :: "position \<Rightarrow> string \<Rightarrow> text_edit" where
  "TextEdit_insert p s = \<lparr>edit_range = \<lparr>range_start = p, range_end = p\<rparr>, newText = s\<rparr>"

text \<open>
  What a handler does to the editor, in order. A status bar item is known by the number
  of items created before it.
\<close>

datatype event =
    ConsoleError string string
  | StatusCreate nat
  | StatusText nat string
  | StatusProgress nat bool
  | StatusShow nat
  | StatusHide nat
  | WaitUntil "text_edit list"
  | SetTimeoutHide nat nat

fun is_create :: "event \<Rightarrow> bool" where
  "is_create (StatusCreate i) = True"
| "is_create _ = False"

definition createStatusBarItem :: "event list \<Rightarrow> nat \<times> event list" where
  "createStatusBarItem tr = (let item = length (filter is_create tr) in (item, tr @ [StatusCreate item]))"

text \<open>The three lines \<^verbatim>\<open>createStatusBarItem(); item.text = msg; item.show()\<close>.\<close>

definition show_status_message :: "string \<Rightarrow> event list \<Rightarrow> event list" where
  "show_status_message msg tr =
     (case createStatusBarItem tr of (item, tr') \<Rightarrow> tr' @ [StatusText item msg, StatusShow item])"

section \<open>Configuration resolution\<close>

text \<open>
  The host as \<open>_getConfiguration\<close> sees it. \<open>settings\<close> is
  \<^verbatim>\<open>workspace.getConfiguration("importSorter").get(name)\<close>; \<open>files\<close> is the file system
  through \<^verbatim>\<open>existsSync\<close>, \<^verbatim>\<open>readFileSync\<close> and \<^verbatim>\<open>JSON.parse\<close>: no file, a file whose
  reading or parsing throws, or the parsed value. \<open>defaultConfigurationFilePath\<close> is
  \<^verbatim>\<open>defaultGeneralConfiguration.configurationFilePath\<close> and \<open>sep\<close> the path separator, both
  imported by the source; \<open>ToString\<close> is the rendering of a value that is not a string
  inside a template literal. \<open>textDocuments\<close> and \<open>uri\<close> are the open documents and the
  identifier of the current one; \<open>getText\<close> is a document's full text.
\<close>

record document =
  doc_uri :: string
  languageId :: string
  getText :: string

record workspace =
  rootPath :: "string option"
  sep :: string
  settings :: "string \<Rightarrow> props"
  files :: "string \<Rightarrow> (js_error + json) option"
  defaultConfigurationFilePath :: string
  ToString :: "json \<Rightarrow> string"
  textDocuments :: "document list"
  uri :: string

record import_sorter_configuration =
  sortConfiguration :: props
  importStringConfiguration :: props
  generalConfiguration :: props

definition template_root :: "string option \<Rightarrow> string" where
  "template_root p = (case p of None \<Rightarrow> ''undefined'' | Some s \<Rightarrow> s)"

definition template_value :: "workspace \<Rightarrow> json option \<Rightarrow> string" where
  "template_value ws v =
     (case v of None \<Rightarrow> ''undefined'' | Some (JStr s) \<Rightarrow> s | Some x \<Rightarrow> ToString ws x)"

definition not_found_message :: string where
  "not_found_message =
     ''configurationFilePath is not found by the following path, import sorter will proceed with defaults from settings''"

definition configPath :: "workspace \<Rightarrow> string" where
  "configPath ws =
     template_root (rootPath ws) @ sep ws @
     template_value ws (map_of (cloneDeep (settings ws ''generalConfiguration'')) ''configurationFilePath'')"

definition isConfigExist :: "workspace \<Rightarrow> bool" where
  "isConfigExist ws = (files ws (configPath ws) \<noteq> None)"

text \<open>The condition of the \<^verbatim>\<open>if\<close> at lines 45 to 49.\<close>

definition warns :: "workspace \<Rightarrow> bool" where
  "warns ws =
     (\<not> isConfigExist ws \<and>
      map_of (cloneDeep (settings ws ''generalConfiguration'')) ''configurationFilePath''
        \<noteq> Some (JStr (defaultConfigurationFilePath ws)))"

definition warn_not_found :: "workspace \<Rightarrow> event list \<Rightarrow> event list" where
  "warn_not_found ws tr =
     show_status_message not_found_message (tr @ [ConsoleError not_found_message (configPath ws)])"

text \<open>\<^verbatim>\<open>JSON.parse(isConfigExist ? readFileSync(configPath) : "{}")\<close>\<close>

definition fileConfigJsonObj :: "workspace \<Rightarrow> js_error + json" where
  "fileConfigJsonObj ws = (case files ws (configPath ws) of None \<Rightarrow> Inr (JObj Plain []) | Some r \<Rightarrow> r)"

definition fileConfig :: "workspace \<Rightarrow> js_error + props" where
  "fileConfig ws =
     (case fileConfigJsonObj ws of
        Inl e \<Rightarrow> Inl e
      | Inr obj \<Rightarrow>
          (case object_entries obj of
             Inl e \<Rightarrow> Inl e
           | Inr entries \<Rightarrow> Inr (fileConfigMerged entries)))"

text \<open>\<^verbatim>\<open>merge(cloneDeep(get(name)), fileConfig[name] || {})\<close>\<close>

definition merged_section :: "workspace \<Rightarrow> props \<Rightarrow> string \<Rightarrow> props" where
  "merged_section ws fc name =
     lodash_merge (cloneDeep (settings ws name)) (or_empty_object (map_of fc name))"

definition getConfiguration' :: "workspace \<Rightarrow> event list \<Rightarrow> event list \<times> (js_error + import_sorter_configuration)" where
  "getConfiguration' ws tr =
     (let tr' = (if warns ws then warn_not_found ws tr else tr) in
      case fileConfig ws of
        Inl e \<Rightarrow> (tr', Inl e)
      | Inr fc \<Rightarrow>
          (tr', Inr \<lparr>sortConfiguration = merged_section ws fc ''sortConfiguration'',
                     importStringConfiguration = merged_section ws fc ''importStringConfiguration'',
                     generalConfiguration = merged_section ws fc ''generalConfiguration''\<rparr>))"

section \<open>Properties of configuration resolution\<close>

lemma lodash_merge_empty [simp]: "lodash_merge object (JObj Plain []) = object"
  by (simp add: lodash_merge_def)

lemma fileConfigMerged_Nil [simp]: "fileConfigMerged [] = []"
  by (simp add: fileConfigMerged_def)

lemma fileConfig_missing:
  "\<not> isConfigExist ws \<Longrightarrow> fileConfig ws = Inr []"
  by (simp add: isConfigExist_def fileConfig_def fileConfigJsonObj_def object_entries_def)

text \<open>
  Arrays are merged index by index, so a shorter array of the file replaces only the
  first elements of the editor's; over a plain object an array starts afresh.
\<close>

lemma arrays_merge_by_index:
  "merge_value (Some (jarray [JNum 1, JNum 2, JNum 3])) (jarray [JNum 9]) =
     jarray [JNum 9, JNum 2, JNum 3]"
  by code_simp

lemma array_over_plain_object:
  "merge_value (Some (JObj Plain [(''a'', JNum 1)])) (jarray [JNum 9]) = jarray [JNum 9]"
  by code_simp


section \<open>Deep overlay: what merge leaves under each key\<close>

text \<open>
  An object is well formed when no key occurs twice in it, at any depth
  (\<open>wf_json\<close>). \<open>lookup_path\<close> reads the value under a non-empty path of keys,
  descending through objects and arrays; \<open>untouched s p\<close> says that the source \<open>s\<close>
  has nothing to say about the path \<open>p\<close>: descending through plain objects, it runs out
  of keys before the path ends.
\<close>


fun wf_json :: "json \<Rightarrow> bool" where
  "wf_json (JObj k ps) = (distinct (map fst ps) \<and> (\<forall>v \<in> snd ` set ps. wf_json v))"
| "wf_json _ = True"


fun lookup_path :: "props \<Rightarrow> string list \<Rightarrow> json option" where
  "lookup_path ps [] = None"
| "lookup_path ps [k] = map_of ps k"
| "lookup_path ps (k # p) = (case map_of ps k of Some (JObj kd qs) \<Rightarrow> lookup_path qs p | _ \<Rightarrow> None)"




lemma distinct_merge_props:
  "distinct (map fst d) \<Longrightarrow> distinct (map fst (merge_props d s))"
  by (induction s arbitrary: d) (auto simp: distinct_update)



definition wf_props :: "props \<Rightarrow> bool" where
  "wf_props ps = (distinct (map fst ps) \<and> (\<forall>v \<in> snd ` set ps. wf_json v))"


lemma wf_props_Nil [simp]: "wf_props []"
  by (simp add: wf_props_def)

lemma wf_json_JObj [simp]: "wf_json (JObj k ps) = wf_props ps"
  by (simp add: wf_props_def)

declare wf_json.simps(1) [simp del]



lemma values_update: "(a, b) \<in> set (AList.update k v d) \<Longrightarrow> b = v \<or> (a, b) \<in> set d"
  by (induction d) (auto split: if_splits)





lemma lookup_path_Nil [simp]: "lookup_path [] p = None"
  by (induction "[]::props" p rule: lookup_path.induct) auto







section \<open>The file-derived fragments are well formed\<close>















section \<open>Precedence of the project file over the editor settings\<close>




subsection \<open>A project with a configuration file\<close>

text \<open>
  A workspace \<^verbatim>\<open>/proj\<close> whose file \<^verbatim>\<open>./import-sorter.json\<close> sets
  \<^verbatim>\<open>sortConfiguration.a\<close> and \<^verbatim>\<open>generalConfiguration.sortOnBeforeSave\<close>, over editor
  settings that hold \<^verbatim>\<open>a\<close>, \<^verbatim>\<open>c\<close> and \<^verbatim>\<open>sortOnBeforeSave\<close>.
\<close>

definition demo_files :: "string \<Rightarrow> (js_error + json) option" where
  "demo_files p =
     (if p = ''/proj/./import-sorter.json''
      then Some (Inr (JObj Plain
             [(''importSorter.sortConfiguration.a'', JNum 1),
              (''importSorter.generalConfiguration.sortOnBeforeSave'', JBool True)]))
      else None)"

definition demo_settings :: "string \<Rightarrow> props" where
  "demo_settings name =
     (if name = ''generalConfiguration''
      then [(''configurationFilePath'', JStr ''./import-sorter.json''), (''sortOnBeforeSave'', JBool False)]
      else if name = ''sortConfiguration''
      then [(''a'', JNum 0), (''c'', JNum 3)]
      else [])"

definition demo_document :: document where
  "demo_document =
     \<lparr>doc_uri = ''file:///proj/a.ts'', languageId = ''typescript'',
      getText = ''import b from b; import a from a;''\<rparr>"

definition demo_workspace :: workspace where
  "demo_workspace =
     \<lparr>rootPath = Some ''/proj'', sep = ''/'', settings = demo_settings, files = demo_files,
      defaultConfigurationFilePath = ''./import-sorter.json'', ToString = (\<lambda>v. []),
      textDocuments = [demo_document], uri = ''file:///proj/a.ts''\<rparr>"

text \<open>The same workspace with no file at all, and with another path configured.\<close>

definition no_file_workspace :: workspace where
  "no_file_workspace = demo_workspace\<lparr>files := (\<lambda>p. None)\<rparr>"

definition other_path_settings :: "string \<Rightarrow> props" where
  "other_path_settings name =
     (if name = ''generalConfiguration''
      then [(''configurationFilePath'', JStr ''conf/sorter.json''), (''sortOnBeforeSave'', JBool False)]
      else demo_settings name)"

definition other_path_workspace :: workspace where
  "other_path_workspace = demo_workspace\<lparr>files := (\<lambda>p. None), settings := other_path_settings\<rparr>"

text \<open>Editor settings that do not hold \<^verbatim>\<open>configurationFilePath\<close>, and no file.\<close>

definition bare_settings :: "string \<Rightarrow> props" where
  "bare_settings name =
     (if name = ''generalConfiguration'' then [(''sortOnBeforeSave'', JBool True)] else [])"

definition bare_workspace :: workspace where
  "bare_workspace =
     \<lparr>rootPath = Some ''/proj'', sep = ''/'', settings = bare_settings, files = (\<lambda>p. None),
      defaultConfigurationFilePath = ''./import-sorter.json'', ToString = (\<lambda>v. []),
      textDocuments = [demo_document], uri = ''file:///proj/a.ts''\<rparr>"

lemmas resolution_defs =
  getConfiguration'_def warns_def isConfigExist_def configPath_def warn_not_found_def
  show_status_message_def createStatusBarItem_def not_found_message_def
  template_root_def template_value_def cloneDeep_def
  fileConfig_def fileConfigJsonObj_def object_entries_def fileConfigMerged_def
  unflatten_key_def path_of_key_def merged_section_def lodash_merge_def or_empty_object_def
  array_base_def plain_base_def

lemmas scenario_defs =
  demo_workspace_def demo_settings_def demo_files_def no_file_workspace_def
  other_path_workspace_def other_path_settings_def bare_workspace_def bare_settings_def

lemma demo_resolution:
  "getConfiguration' demo_workspace [] =
     ([], Inr \<lparr>sortConfiguration = [(''a'', JNum 1), (''c'', JNum 3)],
               importStringConfiguration = [],
               generalConfiguration =
                 [(''configurationFilePath'', JStr ''./import-sorter.json''),
                  (''sortOnBeforeSave'', JBool True)]\<rparr>)"
  by (simp add: resolution_defs scenario_defs)

text \<open>
  Claim C7. Configuration resolution warns exactly when the configuration file does not
  exist at the resolved path and the configured relative path is not the compiled-in
  default path: then the events are one console line and one status bar item, created,
  given the message and shown; otherwise resolution adds no event. Whenever the file is
  missing, with or without the warning, resolution does not fail: the file fragment is
  empty and the three sub-configurations are the editor settings' own.
\<close>

theorem missing_file_warning:
  "fst (getConfiguration' ws tr) =
     (if \<not> isConfigExist ws \<and>
         map_of (settings ws ''generalConfiguration'') ''configurationFilePath''
           \<noteq> Some (JStr (defaultConfigurationFilePath ws))
      then tr @ [ConsoleError not_found_message (configPath ws),
                 StatusCreate (length (filter is_create tr)),
                 StatusText (length (filter is_create tr)) not_found_message,
                 StatusShow (length (filter is_create tr))]
      else tr) \<and>
   (\<not> isConfigExist ws \<longrightarrow>
      snd (getConfiguration' ws tr) =
        Inr \<lparr>sortConfiguration = settings ws ''sortConfiguration'',
             importStringConfiguration = settings ws ''importStringConfiguration'',
             generalConfiguration = settings ws ''generalConfiguration''\<rparr>)"
proof -
  have ev: "warn_not_found ws tr =
      tr @ [ConsoleError not_found_message (configPath ws),
            StatusCreate (length (filter is_create tr)),
            StatusText (length (filter is_create tr)) not_found_message,
            StatusShow (length (filter is_create tr))]"
    by (simp add: warn_not_found_def show_status_message_def createStatusBarItem_def Let_def)
  have tr: "fst (getConfiguration' ws tr) = (if warns ws then warn_not_found ws tr else tr)"
    by (simp add: getConfiguration'_def Let_def split: sum.splits)
  have sec: "merged_section ws [] name = settings ws name" for name
    by (simp add: merged_section_def or_empty_object_def cloneDeep_def)
  have res: "\<not> isConfigExist ws \<Longrightarrow> snd (getConfiguration' ws tr) =
        Inr \<lparr>sortConfiguration = settings ws ''sortConfiguration'',
             importStringConfiguration = settings ws ''importStringConfiguration'',
             generalConfiguration = settings ws ''generalConfiguration''\<rparr>"
    by (simp add: getConfiguration'_def Let_def fileConfig_missing sec)
  show ?thesis using tr ev res by (simp add: warns_def cloneDeep_def)
qed

theorem missing_file_warning_witness:
  "\<not> isConfigExist other_path_workspace \<and>
   getConfiguration' other_path_workspace [] =
     ([ConsoleError not_found_message ''/proj/conf/sorter.json'',
       StatusCreate 0, StatusText 0 not_found_message, StatusShow 0],
      Inr \<lparr>sortConfiguration = [(''a'', JNum 0), (''c'', JNum 3)],
           importStringConfiguration = [],
           generalConfiguration =
             [(''configurationFilePath'', JStr ''conf/sorter.json''),
              (''sortOnBeforeSave'', JBool False)]\<rparr>) \<and>
   \<not> isConfigExist no_file_workspace \<and>
   getConfiguration' no_file_workspace [] =
     ([],
      Inr \<lparr>sortConfiguration = [(''a'', JNum 0), (''c'', JNum 3)],
           importStringConfiguration = [],
           generalConfiguration =
             [(''configurationFilePath'', JStr ''./import-sorter.json''),
              (''sortOnBeforeSave'', JBool False)]\<rparr>)"
proof -
  have a: "\<not> isConfigExist other_path_workspace" and b: "\<not> isConfigExist no_file_workspace"
    by (simp_all add: isConfigExist_def scenario_defs)
  have pa: "configPath other_path_workspace = ''/proj/conf/sorter.json''"
    by (simp add: configPath_def template_root_def template_value_def cloneDeep_def scenario_defs)
  show ?thesis
    using missing_file_warning [of other_path_workspace "[]"]
      missing_file_warning [of no_file_workspace "[]"] a b pa
    by (simp add: prod_eq_iff scenario_defs)
qed




section \<open>Un-flattening: key order, isolated keys, idempotence\<close>

text \<open>
  Two key paths \<open>diverge\<close> when they part ways at some position: neither is the other,
  nor a beginning of the other.
\<close>

fun diverge :: "string list \<Rightarrow> string list \<Rightarrow> bool" where
  "diverge (a # p) (b # q) = (a \<noteq> b \<or> diverge p q)"
| "diverge _ _ = False"

lemma diverge_iff_parallel: "diverge p q \<longleftrightarrow> \<not> prefix p q \<and> \<not> prefix q p"
  by (induction p q rule: diverge.induct) auto






type_synonym fragments = "(string list \<times> json) list"





definition keys :: "props \<Rightarrow> string set" where
  "keys ps = fst ` set ps"

lemma keys_Nil [simp]: "keys [] = {}"
  by (simp add: keys_def)

lemma keys_Cons [simp]: "keys ((k, v) # ps) = insert k (keys ps)"
  by (simp add: keys_def)

lemma keys_append [simp]: "keys (ps @ qs) = keys ps \<union> keys qs"
  by (auto simp: keys_def)

lemma keys_update [simp]: "keys (AList.update k v d) = insert k (keys d)"
  unfolding keys_def by (induction d) auto




lemma split_dot_nonempty: "split_dot s \<noteq> []"
  by (induction s) (auto split: list.splits)













text \<open>Equality of two values up to the order in which objects list their keys.\<close>

fun json_equiv :: "json \<Rightarrow> json \<Rightarrow> bool"
and props_within :: "props \<Rightarrow> props \<Rightarrow> bool" where
  "json_equiv (JObj k ps) w =
     (case w of JObj k' qs \<Rightarrow> k = k' \<and> length ps = length qs \<and> props_within ps qs | _ \<Rightarrow> False)"
| "json_equiv JNull w = (w = JNull)"
| "json_equiv (JBool b) w = (w = JBool b)"
| "json_equiv (JNum n) w = (w = JNum n)"
| "json_equiv (JStr s) w = (w = JStr s)"
| "props_within [] qs = True"
| "props_within ((k, v) # ps) qs =
     ((case map_of qs k of Some w \<Rightarrow> json_equiv v w | None \<Rightarrow> False) \<and> props_within ps qs)"









section \<open>The import-processing service\<close>

text \<open>
  The service is consumed through two calls: \<^verbatim>\<open>getSortImportData(uri, text)\<close>, which
  returns the sort data or throws, and \<^verbatim>\<open>sortImportsInDirectory(path)\<close>, which returns
  an observable. The service reads the configuration from the provider, so both take
  the provider's current configuration. An observable is taken by what a subscriber
  sees of it: the elements in order, then completion or an error.
\<close>

record line_range =
  startLine :: int
  startCharacter :: int
  endLine :: int
  endCharacter :: int

record sort_result =
  isSortRequired :: bool
  rangesToDelete :: "line_range list"
  firstLineNumberToInsertText :: int
  sortedImportsText :: string

datatype 'a observable = Observable (emitted: "'a list") (failure: "js_error option")

record import_runner =
  getSortImportData :: "import_sorter_configuration option \<Rightarrow> string \<Rightarrow> string \<Rightarrow> js_error + sort_result"
  sortImportsInDirectory :: "import_sorter_configuration option \<Rightarrow> string \<Rightarrow> unit observable"

section \<open>Promises started by a handler\<close>

text \<open>
  \<open>Then r callbacks\<close> is a promise obtained by the request \<open>r\<close> with a \<^verbatim>\<open>then\<close>
  callback that, once the promise is fulfilled, starts the promises \<open>callbacks\<close> in
  order. No rejection handler is attached anywhere in the source.
\<close>

datatype request = DocumentPromise | ApplyEdits "text_edit list"

datatype async = Then request "async list"

record will_save_event =
  ev_document :: document

section \<open>The eligibility gate\<close>

definition supported_message :: string where
  "supported_message =
     ''Import Sorter currently only supports typescript (.ts) or typescriptreact (.tsx) language files''"

definition isSortAllowed :: "document option \<Rightarrow> bool \<Rightarrow> event list \<Rightarrow> bool \<times> event list" where
  "isSortAllowed document isFileExtensionErrorIgnored tr =
     (case document of
        None \<Rightarrow> (False, tr)
      | Some d \<Rightarrow>
          if languageId d = ''typescript'' \<or> languageId d = ''typescriptreact'' then (True, tr)
          else if isFileExtensionErrorIgnored then (False, tr)
          else (False, show_status_message supported_message tr))"

section \<open>Committing one document\<close>

text \<open>
  \<open>try_sort\<close> is the body of the \<^verbatim>\<open>try\<close> block of \<open>sortActiveDocumentImports\<close>: the
  document of the event or else the active document, the sort data, and the commit. On
  the pre-save path the edits are handed to \<^verbatim>\<open>event.waitUntil\<close>; on the explicit path
  the handler only starts the promise chain \<open>apply_in_two_steps\<close> and returns.
\<close>

definition deleteEdits :: "sort_result \<Rightarrow> text_edit list" where
  "deleteEdits importData =
     map (\<lambda>x. TextEdit_del
                \<lparr>range_start = \<lparr>line = startLine x, character = startCharacter x\<rparr>,
                 range_end = \<lparr>line = endLine x, character = endCharacter x\<rparr>\<rparr>)
       (rangesToDelete importData)"

definition insertEdit :: "sort_result \<Rightarrow> text_edit" where
  "insertEdit importData =
     TextEdit_insert \<lparr>line = firstLineNumberToInsertText importData, character = 0\<rparr>
       (sortedImportsText importData @ [CHR 0x0A])"

definition apply_in_two_steps :: "sort_result \<Rightarrow> async" where
  "apply_in_two_steps importData =
     Then DocumentPromise
       [Then (ApplyEdits (deleteEdits importData))
          [Then (ApplyEdits [insertEdit importData]) []]]"

definition failure_message :: "js_error \<Rightarrow> string" where
  "failure_message error =
     ''Typescript import sorter failed with - '' @ message error @ ''. Please log a bug.''"

definition no_document_error :: js_error where
  "no_document_error = JsError ''Cannot read property 'getText' of undefined''"

definition active_document :: "workspace \<Rightarrow> document option" where
  "active_document ws = find (\<lambda>d. doc_uri d = uri ws) (textDocuments ws)"

definition try_sort ::
  "workspace \<Rightarrow> import_runner \<Rightarrow> import_sorter_configuration option \<Rightarrow> will_save_event option \<Rightarrow>
   event list \<Rightarrow> js_error + event list \<times> async list" where
  "try_sort ws runner current event tr =
     (case (case event of Some ev \<Rightarrow> Some (ev_document ev) | None \<Rightarrow> active_document ws) of
        None \<Rightarrow> Inl no_document_error
      | Some doc \<Rightarrow>
          (case getSortImportData runner current (doc_uri doc) (getText doc) of
             Inl error \<Rightarrow> Inl error
           | Inr importData \<Rightarrow>
               if \<not> isSortRequired importData then Inr (tr, [])
               else (case event of
                       Some ev \<Rightarrow>
                         Inr (tr @ [WaitUntil (deleteEdits importData @ [insertEdit importData])], [])
                     | None \<Rightarrow> Inr (tr, [apply_in_two_steps importData]))))"

definition sortActiveDocumentImports ::
  "workspace \<Rightarrow> import_runner \<Rightarrow> import_sorter_configuration option \<Rightarrow> will_save_event option \<Rightarrow>
   event list \<Rightarrow> event list \<times> async list" where
  "sortActiveDocumentImports ws runner current event tr =
     (case try_sort ws runner current event tr of
        Inr finished \<Rightarrow> finished
      | Inl error \<Rightarrow> (show_status_message (failure_message error) tr, []))"

text \<open>
  What a handler leaves behind: the editor events, the exception that escaped it, the
  promise chains it started, and the provider's current configuration.
\<close>

record outcome =
  events :: "event list"
  thrown :: "js_error option"
  started :: "async list"
  currentConfiguration :: "import_sorter_configuration option"

definition sortActiveDocumentImportsFromCommand ::
  "workspace \<Rightarrow> import_runner \<Rightarrow> import_sorter_configuration option \<Rightarrow> outcome" where
  "sortActiveDocumentImportsFromCommand ws runner current =
     (case isSortAllowed (active_document ws) False [] of
        (False, tr) \<Rightarrow> \<lparr>events = tr, thrown = None, started = [], currentConfiguration = current\<rparr>
      | (True, tr) \<Rightarrow>
          (case getConfiguration' ws tr of
             (tr', Inl error) \<Rightarrow>
               \<lparr>events = tr', thrown = Some error, started = [], currentConfiguration = current\<rparr>
           | (tr', Inr cfg) \<Rightarrow>
               (case sortActiveDocumentImports ws runner (Some cfg) None tr' of
                  (tr'', promises) \<Rightarrow>
                    \<lparr>events = tr'', thrown = None, started = promises, currentConfiguration = Some cfg\<rparr>)))"

definition sortModifiedDocumentImportsFromOnBeforeSaveCommand ::
  "workspace \<Rightarrow> import_runner \<Rightarrow> import_sorter_configuration option \<Rightarrow> will_save_event \<Rightarrow> outcome" where
  "sortModifiedDocumentImportsFromOnBeforeSaveCommand ws runner current event =
     (case getConfiguration' ws [] of
        (tr, Inl error) \<Rightarrow>
          \<lparr>events = tr, thrown = Some error, started = [], currentConfiguration = current\<rparr>
      | (tr, Inr configuration) \<Rightarrow>
          if \<not> truthy (map_of (generalConfiguration configuration) ''sortOnBeforeSave'')
          then \<lparr>events = tr, thrown = None, started = [], currentConfiguration = Some configuration\<rparr>
          else (case isSortAllowed (Some (ev_document event)) True tr of
                  (False, tr') \<Rightarrow>
                    \<lparr>events = tr', thrown = None, started = [], currentConfiguration = Some configuration\<rparr>
                | (True, tr') \<Rightarrow>
                    (case sortActiveDocumentImports ws runner (Some configuration) (Some event) tr' of
                       (tr'', promises) \<Rightarrow>
                         \<lparr>events = tr'', thrown = None, started = promises,
                          currentConfiguration = Some configuration\<rparr>)))"

section \<open>The promise loop\<close>

text \<open>
  The host settles the pending promises one at a time, in an order of its choosing (the
  schedule); a schedule entry for a promise that is not pending changes nothing. A
  fulfilled promise runs its callback, which starts the next promises.
\<close>

datatype pevent = Issued nat request | Settled nat bool

record loop =
  waiting :: "(nat \<times> async list) list"
  history :: "pevent list"

fun is_issued :: "pevent \<Rightarrow> bool" where
  "is_issued (Issued n r) = True"
| "is_issued _ = False"

fun begin_chain :: "loop \<Rightarrow> async \<Rightarrow> loop" where
  "begin_chain l (Then r callbacks) =
     (let n = length (filter is_issued (history l)) in
      \<lparr>waiting = waiting l @ [(n, callbacks)], history = history l @ [Issued n r]\<rparr>)"

definition settle :: "loop \<Rightarrow> nat \<times> bool \<Rightarrow> loop" where
  "settle l s =
     (case map_of (waiting l) (fst s) of
        None \<Rightarrow> l
      | Some callbacks \<Rightarrow>
          (let l' = \<lparr>waiting = filter (\<lambda>w. fst w \<noteq> fst s) (waiting l),
                     history = history l @ [Settled (fst s) (snd s)]\<rparr>
           in if snd s then foldl begin_chain l' callbacks else l'))"

definition run_loop :: "async list \<Rightarrow> (nat \<times> bool) list \<Rightarrow> loop" where
  "run_loop promises schedule =
     foldl settle (foldl begin_chain \<lparr>waiting = [], history = []\<rparr> promises) schedule"

fun apply_calls :: "pevent list \<Rightarrow> text_edit list list" where
  "apply_calls [] = []"
| "apply_calls (Issued n (ApplyEdits es) # h) = es # apply_calls h"
| "apply_calls (e # h) = apply_calls h"

definition demo_data :: sort_result where
  "demo_data = \<lparr>isSortRequired = True,
     rangesToDelete = [\<lparr>startLine = 0, startCharacter = 0, endLine = 0, endCharacter = 16\<rparr>,
                       \<lparr>startLine = 1, startCharacter = 0, endLine = 1, endCharacter = 16\<rparr>],
     firstLineNumberToInsertText = 0,
     sortedImportsText = ''ab''\<rparr>"

definition demo_runner :: import_runner where
  "demo_runner = \<lparr>getSortImportData = (\<lambda>cfg u t. Inr demo_data),
     sortImportsInDirectory = (\<lambda>cfg p. Observable [(), (), ()] None)\<rparr>"














lemma two_step_all_fulfilled:
  "apply_calls (history (run_loop [apply_in_two_steps d] [(0, True), (1, True), (2, True)]))
     = [deleteEdits d, [insertEdit d]]"
  by (simp add: run_loop_def apply_in_two_steps_def settle_def Let_def)

lemma command_success:
  assumes "active_document ws = Some doc"
    and "languageId doc = ''typescript'' \<or> languageId doc = ''typescriptreact''"
    and "getConfiguration' ws [] = (tr, Inr cfg)"
    and "getSortImportData runner (Some cfg) (doc_uri doc) (getText doc) = Inr d"
    and "isSortRequired d"
  shows "sortActiveDocumentImportsFromCommand ws runner current =
     \<lparr>events = tr, thrown = None, started = [apply_in_two_steps d], currentConfiguration = Some cfg\<rparr>"
  using assms
  by (auto simp: sortActiveDocumentImportsFromCommand_def isSortAllowed_def
      sortActiveDocumentImports_def try_sort_def)

lemma presave_success:
  assumes "getConfiguration' ws [] = (tr, Inr cfg)"
    and "truthy (map_of (generalConfiguration cfg) ''sortOnBeforeSave'')"
    and "languageId (ev_document event) = ''typescript'' \<or> languageId (ev_document event) = ''typescriptreact''"
    and "getSortImportData runner (Some cfg) (doc_uri (ev_document event)) (getText (ev_document event)) = Inr d"
    and "isSortRequired d"
  shows "sortModifiedDocumentImportsFromOnBeforeSaveCommand ws runner current event =
     \<lparr>events = tr @ [WaitUntil (deleteEdits d @ [insertEdit d])], thrown = None, started = [],
      currentConfiguration = Some cfg\<rparr>"
  using assms
  by (auto simp: sortModifiedDocumentImportsFromOnBeforeSaveCommand_def isSortAllowed_def
      sortActiveDocumentImports_def try_sort_def)



section \<open>The directory batch\<close>

text \<open>
  The operators of the pipe. Only the order of the notifications is kept, so
  \<^verbatim>\<open>delay(1000)\<close>, which moves elements and completion later in time and lets an error
  through at once, changes nothing here. \<open>mapObservable_effect\<close> is \<^verbatim>\<open>map\<close> with a
  callback that also assigns \<^verbatim>\<open>statusItem.text\<close>; \<open>toPromise\<close> rejects with the error or
  resolves with the last element.
\<close>

fun mapObservable :: "('a \<Rightarrow> 'b) \<Rightarrow> 'a observable \<Rightarrow> 'b observable" where
  "mapObservable f (Observable xs c) = Observable (map f xs) c"

fun running :: "('b \<Rightarrow> 'a \<Rightarrow> 'b) \<Rightarrow> 'b \<Rightarrow> 'a list \<Rightarrow> 'b list" where
  "running f acc [] = []"
| "running f acc (cur # xs) = f acc cur # running f (f acc cur) xs"

fun scan :: "('b \<Rightarrow> 'a \<Rightarrow> 'b) \<Rightarrow> 'b \<Rightarrow> 'a observable \<Rightarrow> 'b observable" where
  "scan f seed (Observable xs c) = Observable (running f seed xs) c"

fun perform :: "('a \<Rightarrow> event list \<Rightarrow> 'b \<times> event list) \<Rightarrow> 'a list \<Rightarrow> event list \<Rightarrow> 'b list \<times> event list" where
  "perform f [] tr = ([], tr)"
| "perform f (x # xs) tr =
     (case f x tr of (y, tr') \<Rightarrow> (case perform f xs tr' of (ys, tr'') \<Rightarrow> (y # ys, tr'')))"

fun mapObservable_effect ::
  "('a \<Rightarrow> event list \<Rightarrow> 'b \<times> event list) \<Rightarrow> 'a observable \<Rightarrow> event list \<Rightarrow> 'b observable \<times> event list" where
  "mapObservable_effect f (Observable xs c) tr =
     (case perform f xs tr of (ys, tr') \<Rightarrow> (Observable ys c, tr'))"

definition delay :: "nat \<Rightarrow> 'a observable \<Rightarrow> 'a observable" where
  "delay ms source = source"

fun toPromise :: "'a observable \<Rightarrow> js_error + 'a option" where
  "toPromise (Observable xs (Some error)) = Inl error"
| "toPromise (Observable xs None) = Inr (if xs = [] then None else Some (last xs))"

datatype promise = Fulfilled | Rejected js_error

record batch_outcome =
  batch_events :: "event list"
  batch_thrown :: "js_error option"
  returned :: "promise option"
  batch_configuration :: "import_sorter_configuration option"

definition sorted_text :: "nat \<Rightarrow> string" where
  "sorted_text fileCount = string_of_nat fileCount @ '' - sorted''"

definition sortImportsInDirectories ::
  "workspace \<Rightarrow> import_runner \<Rightarrow> import_sorter_configuration option \<Rightarrow> string \<Rightarrow> batch_outcome" where
  "sortImportsInDirectories ws runner current path =
     (case getConfiguration' ws [] of
        (tr, Inl error) \<Rightarrow>
          \<lparr>batch_events = tr, batch_thrown = Some error, returned = None, batch_configuration = current\<rparr>
      | (tr, Inr cfg) \<Rightarrow>
          (let sortImports = sortImportsInDirectory runner (Some cfg) path in
           case createStatusBarItem tr of
             (statusItem, tr1) \<Rightarrow>
               (let tr2 = tr1 @ [StatusText statusItem ''Import sorter: sorting...'',
                                 StatusProgress statusItem True, StatusShow statusItem] in
                case mapObservable_effect
                       (\<lambda>fileCount t. (sorted_text fileCount, t @ [StatusText statusItem (sorted_text fileCount)]))
                       (scan (\<lambda>acc cur. acc + cur) 0 (mapObservable (\<lambda>_. 1) sortImports)) tr2 of
                  (piped, tr3) \<Rightarrow>
                    (case toPromise (delay 1000 piped) of
                       Inl error \<Rightarrow>
                         \<lparr>batch_events = tr3, batch_thrown = None, returned = Some (Rejected error),
                          batch_configuration = Some cfg\<rparr>
                     | Inr v \<Rightarrow>
                         \<lparr>batch_events = tr3 @ [StatusText statusItem ''done.'', SetTimeoutHide 1000 statusItem],
                          batch_thrown = None, returned = Some Fulfilled,
                          batch_configuration = Some cfg\<rparr>))))"

text \<open>The trace once the timers set in it have fired, and the text an item shows.\<close>

fun timeout_fires :: "event \<Rightarrow> event list" where
  "timeout_fires (SetTimeoutHide ms item) = [StatusHide item]"
| "timeout_fires _ = []"

definition after_timeouts :: "event list \<Rightarrow> event list" where
  "after_timeouts tr = tr @ concat (map timeout_fires tr)"

fun item_text :: "nat \<Rightarrow> event list \<Rightarrow> string option" where
  "item_text item [] = None"
| "item_text item (e # tr) =
     (case item_text item tr of
        Some s \<Rightarrow> Some s
      | None \<Rightarrow> (case e of StatusText i s \<Rightarrow> if i = item then Some s else None | _ \<Rightarrow> None))"

definition failing_runner :: import_runner where
  "failing_runner = \<lparr>getSortImportData = (\<lambda>cfg u t. Inl (JsError ''Unexpected token'')),
     sortImportsInDirectory = (\<lambda>cfg p. Observable [(), ()] (Some (JsError ''Unexpected token'')))\<rparr>"


lemma running_count:
  "running (\<lambda>acc cur. acc + cur) a (map (\<lambda>_. 1) xs) = map (\<lambda>n. a + n) [1..<Suc (length xs)]"
proof (induction xs arbitrary: a)
  case Nil
  then show ?case by simp
next
  case (Cons x xs)
  have u: "[1..<Suc (length (x # xs))] = 1 # map Suc [1..<Suc (length xs)]"
    by (simp add: map_Suc_upt upt_conv_Cons del: upt_Suc)
  have "running (\<lambda>acc cur. acc + cur) a (map (\<lambda>_. 1) (x # xs))
      = (a + 1) # running (\<lambda>acc cur. acc + cur) (a + 1) (map (\<lambda>_. 1) xs)"
    by simp
  also have "\<dots> = (a + 1) # map (\<lambda>n. (a + 1) + n) [1..<Suc (length xs)]"
    by (simp only: Cons.IH)
  also have "\<dots> = map (\<lambda>n. a + n) (1 # map Suc [1..<Suc (length xs)])"
    by (simp add: comp_def)
  finally show ?case by (simp only: u)
qed

lemma perform_text:
  "perform (\<lambda>fileCount t. (g fileCount, t @ [StatusText i (g fileCount)])) ns tr
     = (map g ns, tr @ map (\<lambda>n. StatusText i (g n)) ns)"
  by (induction ns arbitrary: tr) simp_all


definition javascript_document :: document where
  "javascript_document =
     \<lparr>doc_uri = ''file:///proj/b.js'', languageId = ''javascript'', getText = ''let x;''\<rparr>"

definition tsx_document :: document where
  "tsx_document =
     \<lparr>doc_uri = ''file:///proj/c.tsx'', languageId = ''typescriptreact'', getText = ''let y;''\<rparr>"

section \<open>Properties of the handlers\<close>

text \<open>
  Claim C5, as amended. The gate allows sorting exactly when the document is present
  and its language identifier is \<^verbatim>\<open>typescript\<close> or \<^verbatim>\<open>typescriptreact\<close>. An absent
  document is refused with no notice, whatever the tolerance flag; a present document of
  another language is refused with exactly one status bar notice, which names the two
  supported languages, when the mismatch is not tolerated, and with no notice when it
  is.
\<close>

theorem eligibility_gate:
  "fst (isSortAllowed doc ignored tr) =
     (case doc of
        None \<Rightarrow> False
      | Some d \<Rightarrow> languageId d = ''typescript'' \<or> languageId d = ''typescriptreact'') \<and>
   snd (isSortAllowed doc ignored tr) =
     (case doc of
        None \<Rightarrow> tr
      | Some d \<Rightarrow>
          if languageId d = ''typescript'' \<or> languageId d = ''typescriptreact'' \<or> ignored then tr
          else tr @ [StatusCreate (length (filter is_create tr)),
                     StatusText (length (filter is_create tr)) supported_message,
                     StatusShow (length (filter is_create tr))])"
  by (simp add: isSortAllowed_def show_status_message_def createStatusBarItem_def Let_def
      split: option.splits)

theorem eligibility_gate_witness:
  "isSortAllowed (Some tsx_document) False [] = (True, []) \<and>
   isSortAllowed (Some javascript_document) False [] =
     (False, [StatusCreate 0, StatusText 0 supported_message, StatusShow 0]) \<and>
   isSortAllowed (Some javascript_document) True [] = (False, [])"
  using eligibility_gate [of "Some tsx_document" False "[]"]
    eligibility_gate [of "Some javascript_document" False "[]"]
    eligibility_gate [of "Some javascript_document" True "[]"]
  by (simp add: prod_eq_iff tsx_document_def javascript_document_def)

text \<open>
  Against claim C5 as stated: an absent document with the mismatch not tolerated yields
  no notice.
\<close>

theorem absent_document_is_silent:
  "isSortAllowed None False [] = (False, [])"
  by (simp add: isSortAllowed_def)


subsection \<open>The demonstration project under the three triggers\<close>

definition demo_event :: will_save_event where
  "demo_event = \<lparr>ev_document = demo_document\<rparr>"

definition demo_configuration :: import_sorter_configuration where
  "demo_configuration =
     \<lparr>sortConfiguration = [(''a'', JNum 1), (''c'', JNum 3)],
      importStringConfiguration = [],
      generalConfiguration =
        [(''configurationFilePath'', JStr ''./import-sorter.json''),
         (''sortOnBeforeSave'', JBool True)]\<rparr>"


definition demo_edits :: "text_edit list" where
  "demo_edits =
     [\<lparr>edit_range = \<lparr>range_start = \<lparr>line = 0, character = 0\<rparr>,
                     range_end = \<lparr>line = 0, character = 16\<rparr>\<rparr>, newText = []\<rparr>,
      \<lparr>edit_range = \<lparr>range_start = \<lparr>line = 1, character = 0\<rparr>,
                     range_end = \<lparr>line = 1, character = 16\<rparr>\<rparr>, newText = []\<rparr>,
      \<lparr>edit_range = \<lparr>range_start = \<lparr>line = 0, character = 0\<rparr>,
                     range_end = \<lparr>line = 0, character = 0\<rparr>\<rparr>, newText = ''ab'' @ [CHR 0x0A]\<rparr>]"

lemma demo_resolved: "getConfiguration' demo_workspace [] = ([], Inr demo_configuration)"
  by (simp add: demo_resolution demo_configuration_def)



text \<open>The schedule of a host that fulfils every promise as it comes.\<close>

definition fulfil_in_turn :: "(nat \<times> bool) list" where
  "fulfil_in_turn = [(0, True), (1, True), (2, True)]"

lemma two_step_fulfilled:
  "apply_calls (history (run_loop [apply_in_two_steps d] fulfil_in_turn))
     = [deleteEdits d, [insertEdit d]]"
  unfolding fulfil_in_turn_def by (rule two_step_all_fulfilled)


text \<open>
  Claim C10. For the same eligible document and the same sort data with
  \<^verbatim>\<open>isSortRequired\<close>, the list registered on the pre-save path is the concatenation of
  the batches the explicit path applies when the host fulfils its promises: one delete
  per entry of \<^verbatim>\<open>rangesToDelete\<close>, in order, from (startLine, startCharacter) to
  (endLine, endCharacter), then the insertion of \<^verbatim>\<open>sortedImportsText\<close> and a line break
  at line \<^verbatim>\<open>firstLineNumberToInsertText\<close>, character 0.
\<close>

theorem same_edits_on_both_paths:
  assumes "getConfiguration' ws [] = (tr, Inr cfg)"
    and "active_document ws = Some doc"
    and "ev_document event = doc"
    and "languageId doc = ''typescript'' \<or> languageId doc = ''typescriptreact''"
    and "truthy (map_of (generalConfiguration cfg) ''sortOnBeforeSave'')"
    and "getSortImportData runner (Some cfg) (doc_uri doc) (getText doc) = Inr importData"
    and "isSortRequired importData"
  shows "events (sortModifiedDocumentImportsFromOnBeforeSaveCommand ws runner current event) =
           tr @ [WaitUntil
                   (concat (apply_calls (history
                      (run_loop (started (sortActiveDocumentImportsFromCommand ws runner current))
                         fulfil_in_turn))))] \<and>
         concat (apply_calls (history
            (run_loop (started (sortActiveDocumentImportsFromCommand ws runner current))
               fulfil_in_turn))) =
           map (\<lambda>x. \<lparr>edit_range =
                        \<lparr>range_start = \<lparr>line = startLine x, character = startCharacter x\<rparr>,
                         range_end = \<lparr>line = endLine x, character = endCharacter x\<rparr>\<rparr>,
                      newText = []\<rparr>)
             (rangesToDelete importData) @
           [\<lparr>edit_range =
               \<lparr>range_start = \<lparr>line = firstLineNumberToInsertText importData, character = 0\<rparr>,
                range_end = \<lparr>line = firstLineNumberToInsertText importData, character = 0\<rparr>\<rparr>,
             newText = sortedImportsText importData @ [CHR 0x0A]\<rparr>]"
proof -
  have c: "sortActiveDocumentImportsFromCommand ws runner current =
     \<lparr>events = tr, thrown = None, started = [apply_in_two_steps importData],
      currentConfiguration = Some cfg\<rparr>"
    using assms by (intro command_success) simp_all
  have p: "sortModifiedDocumentImportsFromOnBeforeSaveCommand ws runner current event =
     \<lparr>events = tr @ [WaitUntil (deleteEdits importData @ [insertEdit importData])], thrown = None,
      started = [], currentConfiguration = Some cfg\<rparr>"
    using assms by (intro presave_success) simp_all
  show ?thesis
    by (simp add: c p two_step_fulfilled)
      (simp add: deleteEdits_def insertEdit_def TextEdit_del_def TextEdit_insert_def)
qed


lemma demo_active: "active_document demo_workspace = Some demo_document"
  by (simp add: active_document_def scenario_defs demo_document_def)

lemma demo_language: "languageId demo_document = ''typescript'' \<or> languageId demo_document = ''typescriptreact''"
  by (simp add: demo_document_def)

lemma demo_flag: "truthy (map_of (generalConfiguration demo_configuration) ''sortOnBeforeSave'')"
  by (simp add: demo_configuration_def)

lemma demo_service:
  "getSortImportData demo_runner (Some demo_configuration) (doc_uri demo_document) (getText demo_document)
     = Inr demo_data"
  by (simp add: demo_runner_def)

lemma demo_required: "isSortRequired demo_data"
  by (simp add: demo_data_def)

theorem same_edits_on_both_paths_witness:
  "events (sortModifiedDocumentImportsFromOnBeforeSaveCommand demo_workspace demo_runner None demo_event)
     = [WaitUntil demo_edits] \<and>
   concat (apply_calls (history
      (run_loop (started (sortActiveDocumentImportsFromCommand demo_workspace demo_runner None))
         fulfil_in_turn))) = demo_edits"
proof -
  have e: "ev_document demo_event = demo_document" by (simp add: demo_event_def)
  have d: "map (\<lambda>x. \<lparr>edit_range =
                        \<lparr>range_start = \<lparr>line = startLine x, character = startCharacter x\<rparr>,
                         range_end = \<lparr>line = endLine x, character = endCharacter x\<rparr>\<rparr>,
                      newText = []\<rparr>)
             (rangesToDelete demo_data) @
           [\<lparr>edit_range =
               \<lparr>range_start = \<lparr>line = firstLineNumberToInsertText demo_data, character = 0\<rparr>,
                range_end = \<lparr>line = firstLineNumberToInsertText demo_data, character = 0\<rparr>\<rparr>,
             newText = sortedImportsText demo_data @ [CHR 0x0A]\<rparr>] = demo_edits"
    by (simp add: demo_data_def demo_edits_def)
  from same_edits_on_both_paths [OF demo_resolved demo_active e demo_language demo_flag demo_service
      demo_required, where current = None]
  show ?thesis by (simp add: d)
qed





lemma item_text_append:
  "item_text i (xs @ ys) = (case item_text i ys of Some s \<Rightarrow> Some s | None \<Rightarrow> item_text i xs)"
  by (induction xs) (auto split: option.splits)

lemma item_text_progress:
  "item_text i (map (\<lambda>n. StatusText i (g n)) ns) = (if ns = [] then None else Some (g (last ns)))"
  by (induction ns) (auto split: option.splits)

lemma resolution_events:
  "fst (getConfiguration' ws []) = [] \<or>
   fst (getConfiguration' ws []) =
     [ConsoleError not_found_message (configPath ws), StatusCreate 0,
      StatusText 0 not_found_message, StatusShow 0]"
  by (simp add: getConfiguration'_def Let_def warn_not_found_def show_status_message_def
      createStatusBarItem_def split: sum.splits)

lemma resolution_sets_no_timeout:
  "getConfiguration' ws [] = (tr, r) \<Longrightarrow> concat (map timeout_fires tr) = []"
  using resolution_events [of ws] by auto

lemma batch_events:
  assumes "getConfiguration' ws [] = (tr, Inr cfg)"
    and "sortImportsInDirectory runner (Some cfg) path = Observable elems fault"
  shows "sortImportsInDirectories ws runner current path =
     (let item = length (filter is_create tr);
          progress = tr @ [StatusCreate item, StatusText item ''Import sorter: sorting...'',
                           StatusProgress item True, StatusShow item] @
                     map (\<lambda>n. StatusText item (sorted_text n)) [1..<Suc (length elems)]
      in case fault of
           Some error \<Rightarrow>
             \<lparr>batch_events = progress, batch_thrown = None, returned = Some (Rejected error),
              batch_configuration = Some cfg\<rparr>
         | None \<Rightarrow>
             \<lparr>batch_events = progress @ [StatusText item ''done.'', SetTimeoutHide 1000 item],
              batch_thrown = None, returned = Some Fulfilled, batch_configuration = Some cfg\<rparr>)"
proof -
  have n: "map ((+) 0) [1..<Suc (length elems)] = [1..<Suc (length elems)]"
    by (simp add: map_idI)
  show ?thesis
    using assms
    by (cases fault)
      (simp_all add: sortImportsInDirectories_def createStatusBarItem_def Let_def running_count
        perform_text delay_def n del: upt_Suc One_nat_def)
qed

text \<open>
  Claim C8. For a directory batch whose configuration resolves: the status item is
  created, set to \<^verbatim>\<open>Import sorter: sorting...\<close>, marked as progress and shown; each of
  the N elements of the stream sets its text to the running count, 1 to N in order.
  When the stream completes, the text becomes \<^verbatim>\<open>done.\<close>, a timer of 1000 ms is set
  that hides the item, and the returned promise is fulfilled. When the stream fails
  after N elements, nothing more is done to the item, whose text stays at the last
  count reported (or at the initial text when no element came), and the returned
  promise is rejected with the error.
\<close>

theorem directory_batch_progress:
  assumes "getConfiguration' ws [] = (tr, Inr cfg)"
    and "sortImportsInDirectory runner (Some cfg) path = Observable elems fault"
  shows
    "(fault = None \<longrightarrow>
        batch_events (sortImportsInDirectories ws runner current path) =
          tr @ [StatusCreate (length (filter is_create tr)),
                StatusText (length (filter is_create tr)) ''Import sorter: sorting...'',
                StatusProgress (length (filter is_create tr)) True,
                StatusShow (length (filter is_create tr))] @
          map (\<lambda>count. StatusText (length (filter is_create tr)) (string_of_nat count @ '' - sorted''))
            [1..<Suc (length elems)] @
          [StatusText (length (filter is_create tr)) ''done.'',
           SetTimeoutHide 1000 (length (filter is_create tr))] \<and>
        returned (sortImportsInDirectories ws runner current path) = Some Fulfilled \<and>
        after_timeouts (batch_events (sortImportsInDirectories ws runner current path)) =
          batch_events (sortImportsInDirectories ws runner current path) @
          [StatusHide (length (filter is_create tr))]) \<and>
     (\<forall>error. fault = Some error \<longrightarrow>
        batch_events (sortImportsInDirectories ws runner current path) =
          tr @ [StatusCreate (length (filter is_create tr)),
                StatusText (length (filter is_create tr)) ''Import sorter: sorting...'',
                StatusProgress (length (filter is_create tr)) True,
                StatusShow (length (filter is_create tr))] @
          map (\<lambda>count. StatusText (length (filter is_create tr)) (string_of_nat count @ '' - sorted''))
            [1..<Suc (length elems)] \<and>
        returned (sortImportsInDirectories ws runner current path) = Some (Rejected error) \<and>
        batch_thrown (sortImportsInDirectories ws runner current path) = None \<and>
        item_text (length (filter is_create tr))
            (batch_events (sortImportsInDirectories ws runner current path)) =
          Some (if elems = [] then ''Import sorter: sorting...''
                else string_of_nat (length elems) @ '' - sorted''))"
proof -
  note b = batch_events [OF assms, of current]
  have nt: "concat (map timeout_fires tr) = []"
    using assms(1) by (rule resolution_sets_no_timeout)
  have tf: "concat (map timeout_fires (map (\<lambda>n. StatusText i (g n)) ns)) = []" for i g and ns :: "nat list"
    by (induction ns) simp_all
  have l: "elems \<noteq> [] \<Longrightarrow> last [1..<Suc (length elems)] = length elems"
    by (cases elems) simp_all
  show ?thesis
  proof (cases fault)
    case None
    then show ?thesis
      using b nt by (simp add: Let_def after_timeouts_def sorted_text_def tf del: upt_Suc)
  next
    case (Some error)
    have "item_text (length (filter is_create tr))
            (tr @ [StatusCreate (length (filter is_create tr)),
                   StatusText (length (filter is_create tr)) ''Import sorter: sorting...'',
                   StatusProgress (length (filter is_create tr)) True,
                   StatusShow (length (filter is_create tr))] @
             map (\<lambda>n. StatusText (length (filter is_create tr)) (sorted_text n)) [1..<Suc (length elems)])
          = Some (if elems = [] then ''Import sorter: sorting...'' else sorted_text (length elems))"
      using l by (simp add: item_text_append [of _ tr] item_text_append [of _ "[_, _, _, _]"]
          item_text_progress del: upt_Suc)
    then show ?thesis
      using Some b by (simp add: Let_def sorted_text_def del: upt_Suc)
  qed
qed


lemma demo_stream:
  "sortImportsInDirectory demo_runner (Some demo_configuration) ''/proj/src'' = Observable [(), (), ()] None"
  by (simp add: demo_runner_def)

lemma failing_stream:
  "sortImportsInDirectory failing_runner (Some demo_configuration) ''/proj/src''
     = Observable [(), ()] (Some (JsError ''Unexpected token''))"
  by (simp add: failing_runner_def)

lemma counts_3: "[1..<Suc (length [(), (), ()])] = [1, 2, 3]"
  by (simp add: upt_rec)

lemma counts_2: "[1..<Suc (length [(), ()])] = [1, 2]"
  by (simp add: upt_rec)

lemma small_numbers:
  "string_of_nat 1 = ''1''" "string_of_nat 2 = ''2''" "string_of_nat 3 = ''3''"
  by (simp_all add: string_of_nat.simps digit_char_def)

theorem directory_batch_progress_witness:
  "batch_events (sortImportsInDirectories demo_workspace demo_runner None ''/proj/src'') =
     [StatusCreate 0, StatusText 0 ''Import sorter: sorting...'', StatusProgress 0 True, StatusShow 0,
      StatusText 0 ''1 - sorted'', StatusText 0 ''2 - sorted'', StatusText 0 ''3 - sorted'',
      StatusText 0 ''done.'', SetTimeoutHide 1000 0] \<and>
   returned (sortImportsInDirectories demo_workspace demo_runner None ''/proj/src'') = Some Fulfilled \<and>
   batch_events (sortImportsInDirectories demo_workspace failing_runner None ''/proj/src'') =
     [StatusCreate 0, StatusText 0 ''Import sorter: sorting...'', StatusProgress 0 True, StatusShow 0,
      StatusText 0 ''1 - sorted'', StatusText 0 ''2 - sorted''] \<and>
   returned (sortImportsInDirectories demo_workspace failing_runner None ''/proj/src'')
     = Some (Rejected (JsError ''Unexpected token'')) \<and>
   item_text 0 (batch_events (sortImportsInDirectories demo_workspace failing_runner None ''/proj/src''))
     = Some ''2 - sorted''"
proof -
  note ok = directory_batch_progress [OF demo_resolved demo_stream, where current = None,
      THEN conjunct1, THEN mp, OF refl]
  note bad = directory_batch_progress [OF demo_resolved failing_stream, where current = None,
      THEN conjunct2, THEN spec, THEN mp, OF refl]
  have r1: "[] @ [StatusCreate (length (filter is_create [])),
                StatusText (length (filter is_create [])) ''Import sorter: sorting...'',
                StatusProgress (length (filter is_create [])) True,
                StatusShow (length (filter is_create []))] @
          map (\<lambda>count. StatusText (length (filter is_create [])) (string_of_nat count @ '' - sorted''))
            [1..<Suc (length [(), (), ()])] @
          [StatusText (length (filter is_create [])) ''done.'',
           SetTimeoutHide 1000 (length (filter is_create []))] =
     [StatusCreate 0, StatusText 0 ''Import sorter: sorting...'', StatusProgress 0 True, StatusShow 0,
      StatusText 0 ''1 - sorted'', StatusText 0 ''2 - sorted'', StatusText 0 ''3 - sorted'',
      StatusText 0 ''done.'', SetTimeoutHide 1000 0]"
    by code_simp
  have r2: "[] @ [StatusCreate 0, StatusText 0 ''Import sorter: sorting...'',
                StatusProgress 0 True, StatusShow 0] @
          map (\<lambda>count. StatusText 0 (string_of_nat count @ '' - sorted''))
            [1..<Suc (length [(), ()])] =
     [StatusCreate 0, StatusText 0 ''Import sorter: sorting...'', StatusProgress 0 True, StatusShow 0,
      StatusText 0 ''1 - sorted'', StatusText 0 ''2 - sorted'']"
    by code_simp
  have z: "length (filter is_create []) = 0" by simp
  have r3: "(if [(), ()] = [] then ''Import sorter: sorting...''
             else string_of_nat (length [(), ()]) @ '' - sorted'') = ''2 - sorted''"
    by code_simp
  from ok have a: "batch_events (sortImportsInDirectories demo_workspace demo_runner None ''/proj/src'') =
     [StatusCreate 0, StatusText 0 ''Import sorter: sorting...'', StatusProgress 0 True, StatusShow 0,
      StatusText 0 ''1 - sorted'', StatusText 0 ''2 - sorted'', StatusText 0 ''3 - sorted'',
      StatusText 0 ''done.'', SetTimeoutHide 1000 0]"
    and b: "returned (sortImportsInDirectories demo_workspace demo_runner None ''/proj/src'') = Some Fulfilled"
    by (simp_all only: r1)
  from bad [THEN conjunct1]
  have c: "batch_events (sortImportsInDirectories demo_workspace failing_runner None ''/proj/src'') =
     [StatusCreate 0, StatusText 0 ''Import sorter: sorting...'', StatusProgress 0 True, StatusShow 0,
      StatusText 0 ''1 - sorted'', StatusText 0 ''2 - sorted'']"
    by (simp only: r2 z)
  from bad [THEN conjunct2, THEN conjunct1]
  have d: "returned (sortImportsInDirectories demo_workspace failing_runner None ''/proj/src'')
     = Some (Rejected (JsError ''Unexpected token''))" .
  from bad [THEN conjunct2, THEN conjunct2, THEN conjunct2]
  have e: "item_text 0 (batch_events (sortImportsInDirectories demo_workspace failing_runner None ''/proj/src''))
     = Some ''2 - sorted''"
    by (simp only: r3 z)
  from a b c d e show ?thesis by (intro conjI)
qed









section \<open>The store: whose objects the merges write\<close>

text \<open>
  Values above are immutable, which cannot say that the editor's own settings objects
  stay as they were. Here the objects live in a store: an address is a position in the
  list of objects, and a property holds a scalar or the address of another object. The
  \<^verbatim>\<open>get(name)\<close> of the editor returns the address of a live object. \<^verbatim>\<open>cloneDeep\<close>
  allocates a new object and fills it with the clones of the properties; \<^verbatim>\<open>merge\<close>
  writes into the destination object in place, descends into the objects it already
  holds and allocates the ones it lacks, as \<open>merge_props\<close> and \<open>merge_value\<close> do on
  values. The source of a merge is never written and none of its objects is stored in
  the destination, so it stays a value. The walk of \<^verbatim>\<open>cloneDeep\<close> through the store is
  bounded by fuel; \<open>None\<close> says that the fuel ran out or an address points nowhere.
\<close>

datatype hval = VNull | VBool bool | VNum int | VStr string | VRef nat

record hobj =
  obj_kind :: kind
  obj_props :: "(string \<times> hval) list"

type_synonym heap = "hobj list"

definition get_prop :: "heap \<Rightarrow> nat \<Rightarrow> string \<Rightarrow> hval option" where
  "get_prop h a key = (if a < length h then map_of (obj_props (h ! a)) key else None)"

definition set_prop :: "heap \<Rightarrow> nat \<Rightarrow> string \<Rightarrow> hval \<Rightarrow> heap" where
  "set_prop h a key v = h[a := (h ! a)\<lparr>obj_props := AList.update key v (obj_props (h ! a))\<rparr>]"

definition alloc :: "heap \<Rightarrow> kind \<Rightarrow> heap \<times> nat" where
  "alloc h k = (h @ [\<lparr>obj_kind = k, obj_props = []\<rparr>], length h)"

fun clone_value :: "nat \<Rightarrow> heap \<Rightarrow> hval \<Rightarrow> (heap \<times> hval) option"
and clone_into :: "nat \<Rightarrow> heap \<Rightarrow> nat \<Rightarrow> (string \<times> hval) list \<Rightarrow> heap option" where
  "clone_value 0 h (VRef a) = None"
| "clone_value (Suc fuel) h (VRef a) =
     (if a < length h
      then (case alloc h (obj_kind (h ! a)) of
              (h1, result) \<Rightarrow>
                (case clone_into fuel h1 result (obj_props (h ! a)) of
                   None \<Rightarrow> None
                 | Some h2 \<Rightarrow> Some (h2, VRef result)))
      else None)"
| "clone_value fuel h VNull = Some (h, VNull)"
| "clone_value fuel h (VBool b) = Some (h, VBool b)"
| "clone_value fuel h (VNum n) = Some (h, VNum n)"
| "clone_value fuel h (VStr s) = Some (h, VStr s)"
| "clone_into fuel h result [] = Some h"
| "clone_into fuel h result ((key, subValue) # ps) =
     (case clone_value fuel h subValue of
        None \<Rightarrow> None
      | Some (h', v) \<Rightarrow> clone_into fuel (set_prop h' result key v) result ps)"


text \<open>
  The object a source array or plain object is merged into when the destination can take
  it: an array for an array, any object for a plain object.
\<close>

definition merge_target :: "heap \<Rightarrow> nat \<Rightarrow> string \<Rightarrow> kind \<Rightarrow> nat option" where
  "merge_target h d key k =
     (case get_prop h d key of
        Some (VRef a) \<Rightarrow>
          if a < length h \<and> (k = Plain \<or> obj_kind (h ! a) = Array) then Some a else None
      | _ \<Rightarrow> None)"

fun merge_props_h :: "heap \<Rightarrow> nat \<Rightarrow> props \<Rightarrow> heap"
and merge_key_h :: "heap \<Rightarrow> nat \<Rightarrow> string \<Rightarrow> json \<Rightarrow> heap" where
  "merge_props_h h d [] = h"
| "merge_props_h h d ((key, srcValue) # source) =
     merge_props_h (merge_key_h h d key srcValue) d source"
| "merge_key_h h d key (JObj k src) =
     (case merge_target h d key k of
        Some a \<Rightarrow> set_prop (merge_props_h h a src) d key (VRef a)
      | None \<Rightarrow>
          (case alloc h k of
             (h1, a) \<Rightarrow> set_prop (merge_props_h h1 a src) d key (VRef a)))"
| "merge_key_h h d key JNull = set_prop h d key VNull"
| "merge_key_h h d key (JBool b) = set_prop h d key (VBool b)"
| "merge_key_h h d key (JNum n) = set_prop h d key (VNum n)"
| "merge_key_h h d key (JStr s) = set_prop h d key (VStr s)"


text \<open>The value an address stands for.\<close>

fun tree_of :: "nat \<Rightarrow> heap \<Rightarrow> hval \<Rightarrow> json option"
and props_of :: "nat \<Rightarrow> heap \<Rightarrow> (string \<times> hval) list \<Rightarrow> props option" where
  "tree_of 0 h (VRef a) = None"
| "tree_of (Suc fuel) h (VRef a) =
     (if a < length h
      then map_option (JObj (obj_kind (h ! a))) (props_of fuel h (obj_props (h ! a)))
      else None)"
| "tree_of fuel h VNull = Some JNull"
| "tree_of fuel h (VBool b) = Some (JBool b)"
| "tree_of fuel h (VNum n) = Some (JNum n)"
| "tree_of fuel h (VStr s) = Some (JStr s)"
| "props_of fuel h [] = Some []"
| "props_of fuel h ((key, v) # ps) =
     (case tree_of fuel h v of
        None \<Rightarrow> None
      | Some j \<Rightarrow> map_option ((#) (key, j)) (props_of fuel h ps))"


definition lodash_merge_h :: "heap \<Rightarrow> hval \<Rightarrow> json \<Rightarrow> heap" where
  "lodash_merge_h h object source =
     (case object of VRef d \<Rightarrow> merge_props_h h d (enumerable_props source) | _ \<Rightarrow> h)"

text \<open>
  The copies and merges of \<open>_getConfiguration\<close> (lines 40, 85, 92 and 94 to 105) on
  the store, in the order of the source; \<open>fc\<close> is the un-flattened file configuration.
\<close>

record configuration_refs =
  sortConfiguration_ref :: hval
  importStringConfiguration_ref :: hval
  generalConfiguration_ref :: hval

definition getConfiguration_store ::
  "nat \<Rightarrow> (string \<Rightarrow> nat) \<Rightarrow> props \<Rightarrow> heap \<Rightarrow> (heap \<times> configuration_refs) option" where
  "getConfiguration_store fuel live fc h =
     (case clone_value fuel h (VRef (live ''generalConfiguration'')) of
        None \<Rightarrow> None
      | Some (h1, generalConfig) \<Rightarrow>
          (case clone_value fuel h1 (VRef (live ''sortConfiguration'')) of
             None \<Rightarrow> None
           | Some (h2, sortConfig) \<Rightarrow>
               (case clone_value fuel h2 (VRef (live ''importStringConfiguration'')) of
                  None \<Rightarrow> None
                | Some (h3, importStringConfig) \<Rightarrow>
                    (let h4 = lodash_merge_h h3 sortConfig
                                (or_empty_object (map_of fc ''sortConfiguration''));
                         h5 = lodash_merge_h h4 importStringConfig
                                (or_empty_object (map_of fc ''importStringConfiguration''));
                         h6 = lodash_merge_h h5 generalConfig
                                (or_empty_object (map_of fc ''generalConfiguration''))
                     in Some (h6, \<lparr>sortConfiguration_ref = sortConfig,
                                    importStringConfiguration_ref = importStringConfig,
                                    generalConfiguration_ref = generalConfig\<rparr>)))))"

text \<open>
  The invariant of the proof: below the address \<open>n\<close>, where the editor's objects
  live, nothing changes; the objects from \<open>n\<close> on refer only to objects from \<open>n\<close> on.
\<close>

definition unchanged_below :: "nat \<Rightarrow> heap \<Rightarrow> heap \<Rightarrow> bool" where
  "unchanged_below n h h' \<longleftrightarrow> length h \<le> length h' \<and> (\<forall>a < n. h' ! a = h ! a)"

fun fresh_ref :: "nat \<Rightarrow> heap \<Rightarrow> hval \<Rightarrow> bool" where
  "fresh_ref n h (VRef b) = (n \<le> b \<and> b < length h)"
| "fresh_ref n h _ = True"

definition closed_above :: "nat \<Rightarrow> heap \<Rightarrow> bool" where
  "closed_above n h \<longleftrightarrow>
     (\<forall>a key v. n \<le> a \<and> a < length h \<and> (key, v) \<in> set (obj_props (h ! a)) \<longrightarrow> fresh_ref n h v)"

lemma unchanged_below_refl [simp]: "unchanged_below n h h"
  by (simp add: unchanged_below_def)

lemma unchanged_below_trans:
  "unchanged_below n h h1 \<Longrightarrow> unchanged_below n h1 h2 \<Longrightarrow> unchanged_below n h h2"
  by (auto simp: unchanged_below_def)

lemma length_set_prop [simp]: "length (set_prop h a key v) = length h"
  by (simp add: set_prop_def)

lemma unchanged_set_prop: "n \<le> a \<Longrightarrow> unchanged_below n h (set_prop h a key v)"
  by (simp add: unchanged_below_def set_prop_def)

lemma fresh_ref_mono: "fresh_ref n h v \<Longrightarrow> length h \<le> length h' \<Longrightarrow> fresh_ref n h' v"
  by (cases v) auto

lemma props_set_prop:
  "(k, v') \<in> set (obj_props (set_prop h a key v ! b)) \<Longrightarrow> b < length h \<Longrightarrow>
   v' = v \<or> (k, v') \<in> set (obj_props (h ! b))"
  by (cases "b = a") (auto simp: set_prop_def dest: values_update)

lemma closed_set_prop:
  "closed_above n h \<Longrightarrow> fresh_ref n h v \<Longrightarrow> closed_above n (set_prop h a key v)"
  unfolding closed_above_def
proof (intro allI impI)
  fix b k v'
  assume c: "\<forall>a key v. n \<le> a \<and> a < length h \<and> (key, v) \<in> set (obj_props (h ! a)) \<longrightarrow> fresh_ref n h v"
    and f: "fresh_ref n h v"
    and b: "n \<le> b \<and> b < length (set_prop h a key v) \<and> (k, v') \<in> set (obj_props (set_prop h a key v ! b))"
  from b have "v' = v \<or> (k, v') \<in> set (obj_props (h ! b))"
    using props_set_prop [of k v' h a key v b] by simp
  with c f b have "fresh_ref n h v'" by auto
  then show "fresh_ref n (set_prop h a key v) v'" by (rule fresh_ref_mono) simp
qed

lemma unchanged_alloc: "n \<le> length h \<Longrightarrow> unchanged_below n h (fst (alloc h k))"
  by (simp add: unchanged_below_def alloc_def nth_append)

lemma closed_alloc: "closed_above n h \<Longrightarrow> closed_above n (fst (alloc h k))"
  unfolding closed_above_def
proof (intro allI impI)
  fix a key v
  assume c: "\<forall>a key v. n \<le> a \<and> a < length h \<and> (key, v) \<in> set (obj_props (h ! a)) \<longrightarrow> fresh_ref n h v"
    and a: "n \<le> a \<and> a < length (fst (alloc h k)) \<and> (key, v) \<in> set (obj_props (fst (alloc h k) ! a))"
  from a have "a < length h \<and> (key, v) \<in> set (obj_props (h ! a))"
    by (cases "a < length h") (auto simp: alloc_def nth_append less_Suc_eq)
  with c a have "fresh_ref n h v" by blast
  then show "fresh_ref n (fst (alloc h k)) v"
    by (rule fresh_ref_mono) (simp add: alloc_def)
qed

lemma clone_frame:
  "clone_value fuel h v = Some (h', v') \<Longrightarrow> n \<le> length h \<Longrightarrow> closed_above n h \<Longrightarrow>
     unchanged_below n h h' \<and> closed_above n h' \<and> fresh_ref n h' v'"
  "clone_into fuel h result ps = Some h' \<Longrightarrow> n \<le> result \<Longrightarrow> result < length h \<Longrightarrow>
     closed_above n h \<Longrightarrow> unchanged_below n h h' \<and> closed_above n h'"
proof (induction fuel h v and fuel h result ps arbitrary: h' v' and h' rule: clone_value_clone_into.induct)
  case (1 h a)
  then show ?case by simp
next
  case (2 fuel h a)
  from "2.prems"(1) have a: "a < length h" by (simp split: if_splits)
  obtain h1 r where al: "alloc h (obj_kind (h ! a)) = (h1, r)" by force
  then have r: "r = length h" and h1: "h1 = fst (alloc h (obj_kind (h ! a)))" and l1: "length h1 = Suc (length h)"
    by (auto simp: alloc_def)
  from "2.prems"(1) a al have ci: "clone_into fuel h1 r (obj_props (h ! a)) = Some h'" and v': "v' = VRef r"
    by (auto split: option.splits)
  have u1: "unchanged_below n h h1" unfolding h1 using "2.prems"(2) by (rule unchanged_alloc)
  have c1: "closed_above n h1" unfolding h1 using "2.prems"(3) by (rule closed_alloc)
  from "2.IH" [OF a al [symmetric] ci _ _ c1] "2.prems"(2) r l1
  have "unchanged_below n h1 h' \<and> closed_above n h'" by simp
  with u1 v' r l1 "2.prems"(2) show ?case
    by (auto intro: unchanged_below_trans simp: unchanged_below_def)
next
  case (8 fuel h result key subValue ps)
  from "8.prems"(1) obtain h1 v1 where cv: "clone_value fuel h subValue = Some (h1, v1)"
    and ci: "clone_into fuel (set_prop h1 result key v1) result ps = Some h'"
    by (auto split: option.splits)
  from "8.IH"(1) [OF cv _ "8.prems"(4)] "8.prems"(2,3)
  have s1: "unchanged_below n h h1" and c1: "closed_above n h1" and f1: "fresh_ref n h1 v1"
    by simp_all
  from s1 "8.prems"(3) have r1: "result < length h1" by (simp add: unchanged_below_def)
  have s2: "unchanged_below n h1 (set_prop h1 result key v1)"
    using "8.prems"(2) by (rule unchanged_set_prop)
  have c2: "closed_above n (set_prop h1 result key v1)"
    using c1 f1 by (rule closed_set_prop)
  from "8.IH"(2) [OF cv refl ci "8.prems"(2) _ c2] r1
  have "unchanged_below n (set_prop h1 result key v1) h' \<and> closed_above n h'" by simp
  with s1 s2 show ?case by (blast intro: unchanged_below_trans)
qed auto



lemma merge_target_fresh:
  assumes "merge_target h d key k = Some a" and "n \<le> d" and "d < length h" and "closed_above n h"
  shows "n \<le> a \<and> a < length h"
proof -
  from assms(1) have g: "get_prop h d key = Some (VRef a)" and a: "a < length h"
    by (auto simp: merge_target_def split: option.splits hval.splits if_splits)
  from g assms(3) have "(key, VRef a) \<in> set (obj_props (h ! d))"
    by (auto simp: get_prop_def dest: map_of_SomeD)
  with assms(2,3,4) have "fresh_ref n h (VRef a)"
    unfolding closed_above_def by blast
  with a show ?thesis by simp
qed

lemma merge_frame:
  "n \<le> d \<Longrightarrow> d < length h \<Longrightarrow> closed_above n h \<Longrightarrow>
     unchanged_below n h (merge_props_h h d src) \<and> closed_above n (merge_props_h h d src)"
  "n \<le> d \<Longrightarrow> d < length h \<Longrightarrow> closed_above n h \<Longrightarrow>
     unchanged_below n h (merge_key_h h d key srcValue) \<and> closed_above n (merge_key_h h d key srcValue)"
proof (induction h d src and h d key srcValue rule: merge_props_h_merge_key_h.induct)
  case (1 h d)
  then show ?case by simp
next
  case (2 h d key srcValue source)
  let ?h1 = "merge_key_h h d key srcValue"
  from "2.IH"(1) [OF "2.prems"] have u1: "unchanged_below n h ?h1" and c1: "closed_above n ?h1"
    by simp_all
  from u1 "2.prems"(2) have d1: "d < length ?h1" by (simp add: unchanged_below_def)
  from "2.IH"(2) [OF "2.prems"(1) d1 c1] u1 show ?case
    by (auto intro: unchanged_below_trans)
next
  case (3 h d key k src)
  show ?case
  proof (cases "merge_target h d key k")
    case (Some a)
    from merge_target_fresh [OF Some "3.prems"] have a: "n \<le> a" "a < length h" by simp_all
    let ?h1 = "merge_props_h h a src"
    from "3.IH"(2) [OF Some a "3.prems"(3)]
    have u1: "unchanged_below n h ?h1" and c1: "closed_above n ?h1" by simp_all
    from u1 a have f: "fresh_ref n ?h1 (VRef a)" by (simp add: unchanged_below_def)
    have "unchanged_below n ?h1 (set_prop ?h1 d key (VRef a))"
      using "3.prems"(1) by (rule unchanged_set_prop)
    moreover have "closed_above n (set_prop ?h1 d key (VRef a))"
      using c1 f by (rule closed_set_prop)
    ultimately show ?thesis using u1 Some by (auto intro: unchanged_below_trans)
  next
    case None
    obtain h1 a where al: "alloc h k = (h1, a)" by force
    then have a: "a = length h" and h1: "h1 = fst (alloc h k)" and l1: "length h1 = Suc (length h)"
      by (auto simp: alloc_def)
    have n: "n \<le> length h" using "3.prems"(1,2) by simp
    have u0: "unchanged_below n h h1" unfolding h1 using n by (rule unchanged_alloc)
    have c0: "closed_above n h1" unfolding h1 using "3.prems"(3) by (rule closed_alloc)
    let ?h2 = "merge_props_h h1 a src"
    from "3.IH"(1) [OF None al [symmetric] _ _ c0] a l1 n
    have u1: "unchanged_below n h1 ?h2" and c1: "closed_above n ?h2" by simp_all
    from u1 a l1 n have f: "fresh_ref n ?h2 (VRef a)" by (simp add: unchanged_below_def)
    have "unchanged_below n ?h2 (set_prop ?h2 d key (VRef a))"
      using "3.prems"(1) by (rule unchanged_set_prop)
    moreover have "closed_above n (set_prop ?h2 d key (VRef a))"
      using c1 f by (rule closed_set_prop)
    ultimately show ?thesis using u0 u1 None al by (auto intro: unchanged_below_trans)
  qed
qed (simp_all add: unchanged_set_prop closed_set_prop)

lemma lodash_merge_frame:
  "fresh_ref n h object \<Longrightarrow> closed_above n h \<Longrightarrow>
   unchanged_below n h (lodash_merge_h h object source) \<and> closed_above n (lodash_merge_h h object source)"
  by (cases object) (simp_all add: lodash_merge_h_def merge_frame)

lemma closed_above_length: "closed_above (length h) h"
  by (auto simp: closed_above_def)


text \<open>
  A store of trees in which an object is allocated after the objects it holds; there the
  clones succeed once the fuel covers the store.
\<close>

definition ordered :: "heap \<Rightarrow> bool" where
  "ordered h \<longleftrightarrow>
     (\<forall>a key b. a < length h \<and> (key, VRef b) \<in> set (obj_props (h ! a)) \<longrightarrow> b < a)"

lemma clone_total:
  "unchanged_below (length h0) h0 h \<Longrightarrow> closed_above (length h0) h \<Longrightarrow> ordered h0 \<Longrightarrow>
   (\<forall>b. v = VRef b \<longrightarrow> b < length h0 \<and> b < fuel) \<Longrightarrow> clone_value fuel h v \<noteq> None"
  "unchanged_below (length h0) h0 h \<Longrightarrow> closed_above (length h0) h \<Longrightarrow> ordered h0 \<Longrightarrow>
   length h0 \<le> result \<Longrightarrow> result < length h \<Longrightarrow>
   (\<forall>key b. (key, VRef b) \<in> set ps \<longrightarrow> b < length h0 \<and> b < fuel) \<Longrightarrow>
   clone_into fuel h result ps \<noteq> None"
proof (induction fuel h v and fuel h result ps rule: clone_value_clone_into.induct)
  case (1 h a)
  then show ?case by simp
next
  case (2 fuel h a)
  from "2.prems" have a0: "a < length h0" and af: "a < Suc fuel" by simp_all
  from "2.prems"(1) a0 have a: "a < length h" and same: "h ! a = h0 ! a"
    and n: "length h0 \<le> length h"
    by (simp_all add: unchanged_below_def)
  obtain h1 r where al: "alloc h (obj_kind (h ! a)) = (h1, r)" by force
  then have r: "r = length h" and h1: "h1 = fst (alloc h (obj_kind (h ! a)))" and l1: "length h1 = Suc (length h)"
    by (auto simp: alloc_def)
  have u1: "unchanged_below (length h0) h0 h1"
    using "2.prems"(1) unchanged_alloc [OF n, of "obj_kind (h ! a)"] unfolding h1
    by (rule unchanged_below_trans)
  have c1: "closed_above (length h0) h1" unfolding h1 using "2.prems"(2) by (rule closed_alloc)
  have kids: "\<forall>key b. (key, VRef b) \<in> set (obj_props (h ! a)) \<longrightarrow> b < length h0 \<and> b < fuel"
    using "2.prems"(3) a0 af unfolding ordered_def same by (meson less_Suc_eq_le less_le_trans less_trans)
  from "2.IH" [OF a al [symmetric] u1 c1 "2.prems"(3) _ _ kids] n r l1
  have "clone_into fuel h1 r (obj_props (h ! a)) \<noteq> None" by simp
  then show ?case using a al by (auto split: option.splits)
next
  case (8 fuel h result key subValue ps)
  have sv: "\<forall>b. subValue = VRef b \<longrightarrow> b < length h0 \<and> b < fuel"
    using "8.prems"(6) by auto
  from "8.IH"(1) [OF "8.prems"(1,2,3) sv]
  obtain h1 v1 where cv: "clone_value fuel h subValue = Some (h1, v1)" by auto
  from "8.prems"(1) have n: "length h0 \<le> length h" by (simp add: unchanged_below_def)
  from clone_frame(1) [OF cv n "8.prems"(2)]
  have u1: "unchanged_below (length h0) h h1" and c1: "closed_above (length h0) h1"
    and f1: "fresh_ref (length h0) h1 v1" by simp_all
  let ?h2 = "set_prop h1 result key v1"
  have u2: "unchanged_below (length h0) h0 ?h2"
    using "8.prems"(1) u1 unchanged_set_prop [OF "8.prems"(4), of h1 key v1]
    by (blast intro: unchanged_below_trans)
  have c2: "closed_above (length h0) ?h2" using c1 f1 by (rule closed_set_prop)
  from u1 "8.prems"(5) have r2: "result < length ?h2" by (simp add: unchanged_below_def)
  have rest: "\<forall>key b. (key, VRef b) \<in> set ps \<longrightarrow> b < length h0 \<and> b < fuel"
    using "8.prems"(6) by auto
  from "8.IH"(2) [OF cv refl u2 c2 "8.prems"(3,4) r2 rest]
  show ?case using cv by simp
qed simp_all

lemma clone_live_total:
  assumes "unchanged_below (length h0) h0 h" and "closed_above (length h0) h" and "ordered h0"
    and "a < length h0" and "length h0 \<le> fuel"
  obtains h' v' where "clone_value fuel h (VRef a) = Some (h', v')"
    "unchanged_below (length h0) h0 h'" "closed_above (length h0) h'"
proof -
  have "clone_value fuel h (VRef a) \<noteq> None"
    using assms by (intro clone_total(1)) auto
  then obtain h' v' where c: "clone_value fuel h (VRef a) = Some (h', v')" by auto
  from assms(1) have n: "length h0 \<le> length h" by (simp add: unchanged_below_def)
  from clone_frame(1) [OF c n assms(2)] assms(1)
  have "unchanged_below (length h0) h0 h'" "closed_above (length h0) h'"
    by (auto intro: unchanged_below_trans)
  with c that show ?thesis by blast
qed

lemma getConfiguration_store_total:
  assumes "ordered h" and "\<forall>name. live name < length h" and "length h \<le> fuel"
  shows "getConfiguration_store fuel live fc h \<noteq> None"
proof -
  from assms(2) have l: "live name < length h" for name by simp
  obtain h1 g where 1: "clone_value fuel h (VRef (live ''generalConfiguration'')) = Some (h1, g)"
    and u1: "unchanged_below (length h) h h1" and c1: "closed_above (length h) h1"
    using clone_live_total [OF unchanged_below_refl closed_above_length assms(1) l assms(3)] by metis
  obtain h2 s where 2: "clone_value fuel h1 (VRef (live ''sortConfiguration'')) = Some (h2, s)"
    and u2: "unchanged_below (length h) h h2" and c2: "closed_above (length h) h2"
    using clone_live_total [OF u1 c1 assms(1) l assms(3)] by metis
  obtain h3 i where 3: "clone_value fuel h2 (VRef (live ''importStringConfiguration'')) = Some (h3, i)"
    using clone_live_total [OF u2 c2 assms(1) l assms(3)] by metis
  show ?thesis by (simp add: getConfiguration_store_def 1 2 3 Let_def)
qed

lemma getConfiguration_store_frame:
  assumes "getConfiguration_store fuel live fc h = Some (h', refs)"
  shows "length h \<le> length h' \<and> (\<forall>a < length h. h' ! a = h ! a)"
proof -
  let ?n = "length h"
  from assms obtain h1 g h2 s h3 i where
    1: "clone_value fuel h (VRef (live ''generalConfiguration'')) = Some (h1, g)" and
    2: "clone_value fuel h1 (VRef (live ''sortConfiguration'')) = Some (h2, s)" and
    3: "clone_value fuel h2 (VRef (live ''importStringConfiguration'')) = Some (h3, i)" and
    h': "h' = lodash_merge_h
           (lodash_merge_h
              (lodash_merge_h h3 s (or_empty_object (map_of fc ''sortConfiguration'')))
              i (or_empty_object (map_of fc ''importStringConfiguration'')))
           g (or_empty_object (map_of fc ''generalConfiguration''))"
    by (auto simp: getConfiguration_store_def Let_def split: option.splits)
  from clone_frame(1) [OF 1 le_refl closed_above_length]
  have u1: "unchanged_below ?n h h1" and c1: "closed_above ?n h1" and g: "fresh_ref ?n h1 g"
    by simp_all
  from u1 have l1: "?n \<le> length h1" by (simp add: unchanged_below_def)
  from clone_frame(1) [OF 2 l1 c1]
  have u2: "unchanged_below ?n h1 h2" and c2: "closed_above ?n h2" and s: "fresh_ref ?n h2 s"
    by simp_all
  from u1 u2 have l2: "?n \<le> length h2" by (simp add: unchanged_below_def)
  from clone_frame(1) [OF 3 l2 c2]
  have u3: "unchanged_below ?n h2 h3" and c3: "closed_above ?n h3" and i: "fresh_ref ?n h3 i"
    by simp_all
  let ?h4 = "lodash_merge_h h3 s (or_empty_object (map_of fc ''sortConfiguration''))"
  let ?h5 = "lodash_merge_h ?h4 i (or_empty_object (map_of fc ''importStringConfiguration''))"
  from u3 have s3: "fresh_ref ?n h3 s" using s by (auto intro: fresh_ref_mono simp: unchanged_below_def)
  from lodash_merge_frame [OF s3 c3]
  have u4: "unchanged_below ?n h3 ?h4" and c4: "closed_above ?n ?h4" by simp_all
  from u4 i have i4: "fresh_ref ?n ?h4 i" by (auto intro: fresh_ref_mono simp: unchanged_below_def)
  from lodash_merge_frame [OF i4 c4]
  have u5: "unchanged_below ?n ?h4 ?h5" and c5: "closed_above ?n ?h5" by simp_all
  from u2 u3 u4 u5 g have g5: "fresh_ref ?n ?h5 g"
    by (auto intro: fresh_ref_mono simp: unchanged_below_def)
  from lodash_merge_frame [OF g5 c5]
  have u6: "unchanged_below ?n ?h5 h'" unfolding h' by simp
  from u1 u2 u3 u4 u5 u6 have "unchanged_below ?n h h'"
    by (blast intro: unchanged_below_trans)
  then show ?thesis by (simp add: unchanged_below_def)
qed


subsection \<open>A store with a nested settings object\<close>

text \<open>
  The sort settings hold the object \<^verbatim>\<open>importMembers\<close>; the project file sets
  \<^verbatim>\<open>sortConfiguration.importMembers.direction\<close>, so the merge writes inside the nested
  object.
\<close>

definition store_heap :: heap where
  "store_heap =
     [\<lparr>obj_kind = Plain, obj_props = [(''order'', VStr ''caseInsensitive'')]\<rparr>,
      \<lparr>obj_kind = Plain, obj_props = [(''importMembers'', VRef 0)]\<rparr>,
      \<lparr>obj_kind = Plain, obj_props = []\<rparr>,
      \<lparr>obj_kind = Plain, obj_props = [(''configurationFilePath'', VStr ''./import-sorter.json'')]\<rparr>]"

definition store_live :: "string \<Rightarrow> nat" where
  "store_live name =
     (if name = ''sortConfiguration'' then 1
      else if name = ''importStringConfiguration'' then 2
      else 3)"

definition store_file :: props where
  "store_file = [(''importSorter.sortConfiguration.importMembers.direction'', JStr ''asc'')]"


definition store_result :: heap where
  "store_result =
     store_heap @
     [\<lparr>obj_kind = Plain, obj_props = [(''configurationFilePath'', VStr ''./import-sorter.json'')]\<rparr>,
      \<lparr>obj_kind = Plain, obj_props = [(''importMembers'', VRef 6)]\<rparr>,
      \<lparr>obj_kind = Plain,
        obj_props = [(''order'', VStr ''caseInsensitive''), (''direction'', VStr ''asc'')]\<rparr>,
      \<lparr>obj_kind = Plain, obj_props = []\<rparr>]"

lemma store_run:
  "getConfiguration_store 4 store_live (fileConfigMerged store_file) store_heap =
     Some (store_result,
           \<lparr>sortConfiguration_ref = VRef 5, importStringConfiguration_ref = VRef 7,
            generalConfiguration_ref = VRef 4\<rparr>)"
  by code_simp

text \<open>
  Claim C9. When configuration resolution returns, every object that was in the store
  before it, the editor's live settings objects among them, is exactly as it was: the
  three values are deep-copied first and the merges write only into the copies and into
  objects allocated after them. On a store of trees the resolution does return, given
  fuel for the size of the store.
\<close>

theorem settings_objects_are_not_mutated:
  "(getConfiguration_store fuel live fc h = Some (h', refs) \<longrightarrow>
      length h \<le> length h' \<and> (\<forall>a < length h. h' ! a = h ! a)) \<and>
   (ordered h \<and> (\<forall>name. live name < length h) \<and> length h \<le> fuel \<longrightarrow>
      getConfiguration_store fuel live fc h \<noteq> None)"
  using getConfiguration_store_frame [of fuel live fc h h' refs]
    getConfiguration_store_total [of h live fuel fc]
  by blast

theorem settings_objects_are_not_mutated_witness:
  "getConfiguration_store 4 store_live (fileConfigMerged store_file) store_heap =
     Some (store_result,
           \<lparr>sortConfiguration_ref = VRef 5, importStringConfiguration_ref = VRef 7,
            generalConfiguration_ref = VRef 4\<rparr>) \<and>
   take 4 store_result = store_heap \<and>
   tree_of 4 store_result (VRef 5) =
     Some (JObj Plain
       (lodash_merge [(''importMembers'', JObj Plain [(''order'', JStr ''caseInsensitive'')])]
          (or_empty_object (map_of (fileConfigMerged store_file) ''sortConfiguration'')))) \<and>
   lodash_merge_h store_heap (VRef 1)
       (or_empty_object (map_of (fileConfigMerged store_file) ''sortConfiguration'')) ! 0
     = \<lparr>obj_kind = Plain,
        obj_props = [(''order'', VStr ''caseInsensitive''), (''direction'', VStr ''asc'')]\<rparr>"
proof -
  have t: "take 4 store_result = store_heap"
    by (simp add: store_result_def store_heap_def)
  have r: "tree_of 4 store_result (VRef 5) =
     Some (JObj Plain
       (lodash_merge [(''importMembers'', JObj Plain [(''order'', JStr ''caseInsensitive'')])]
          (or_empty_object (map_of (fileConfigMerged store_file) ''sortConfiguration''))))"
    by code_simp
  have m: "lodash_merge_h store_heap (VRef 1)
       (or_empty_object (map_of (fileConfigMerged store_file) ''sortConfiguration'')) ! 0
     = \<lparr>obj_kind = Plain,
        obj_props = [(''order'', VStr ''caseInsensitive''), (''direction'', VStr ''asc'')]\<rparr>"
    by code_simp
  from settings_objects_are_not_mutated
    [of 4 store_live "fileConfigMerged store_file" store_heap store_result
       "\<lparr>sortConfiguration_ref = VRef 5, importStringConfiguration_ref = VRef 7,
         generalConfiguration_ref = VRef 4\<rparr>"]
    store_run
  have "length store_heap \<le> length store_result" by blast
  with store_run t r m show ?thesis by blast
qed

end
